theory Spec2Isabelle
  imports Main "HOL-Library.Sublist"
begin

section \<open>The process bridge of \<^verbatim>\<open>bridging_mail_mcp.py\<close>\<close>

text \<open>
  The script spawns one child process, relays three line streams between itself and
  the child in three daemon threads, waits for the child and exits with its return code;
  \<^verbatim>\<open>SIGINT\<close> and \<^verbatim>\<open>SIGTERM\<close> are handled by \<^verbatim>\<open>handle_termination\<close>.

  Everything the script asks of the operating system is answered by a \<^emph>\<open>world\<close>: a
  record of oracles (what \<^verbatim>\<open>Popen\<close> returns or raises, what \<^verbatim>\<open>poll\<close>, \<^verbatim>\<open>terminate\<close> and
  \<^verbatim>\<open>wait\<close> do, what the streams deliver, where a signal arrives, where the relay
  threads are when the interpreter shuts down). The script's own state is the global
  \<^verbatim>\<open>proc\<close>, the table of installed signal handlers and the log of the calls it has
  made. Exceptions are values: every function of the script returns \<open>Inl e\<close> when it
  raises \<open>e\<close>. The status the process ends with is what the interpreter's shutdown makes
  of the exception that ends \<^verbatim>\<open>main\<close>.
\<close>

subsection \<open>Values\<close>

datatype signum = SIGINT | SIGTERM

text \<open>
  The exceptions that occur. \<open>SystemExit n\<close> is what \<^verbatim>\<open>sys.exit(n)\<close> raises.
  \<open>Unhandled sg\<close> is not a Python exception: it stands for the platform's default
  action on a signal for which the script has installed no handler.
\<close>

datatype exn =
    OSError
  | IOError
  | AttributeError
  | KeyboardInterrupt
  | SystemExit int
  | Unhandled signum

text \<open>
  How the process ends: with an exit code, by a signal nobody handled, or by the
  \<^verbatim>\<open>abort()\<close> of the interpreter's fatal error (the process is killed by \<^verbatim>\<open>SIGABRT\<close>).
\<close>

datatype status = Code int | BySignal signum | Aborted

text \<open>
  The interpreter's rule at top level, when its shutdown goes well: \<^verbatim>\<open>SystemExit(n)\<close>
  ends the process with \<open>n\<close> as the operating system keeps it, which is its low eight
  bits (\<^verbatim>\<open>sys.exit(-15)\<close> is status 241, \<^verbatim>\<open>sys.exit(256)\<close> is status 0); an uncaught
  \<^verbatim>\<open>KeyboardInterrupt\<close> ends it the way the interrupt signal does; any other uncaught
  exception prints a traceback and ends it with code 1. What the shutdown adds is
  \<open>shutdown\<close> below.
\<close>

fun exit_status :: "exn \<Rightarrow> status" where
  "exit_status (SystemExit n) = Code (n mod 256)"
| "exit_status (Unhandled sg) = BySignal sg"
| "exit_status KeyboardInterrupt = BySignal SIGINT"
| "exit_status _ = Code 1"

type_synonym handle = nat

record popen_args =
  args :: "string list"
  stdin_pipe :: bool
  stdout_pipe :: bool
  stderr_pipe :: bool
  env :: "string \<rightharpoonup> string"
  creationflags :: nat
  text_mode :: bool
  bufsize :: int

text \<open>What a relay does to the stream it writes to.\<close>

datatype ev = Write string | Flush

text \<open>
  A stream being read is the list of results of the successive reads of its iterator:
  a line, or the exception the read raises; the end of the list is end-of-stream.
  A stream being written is an oracle: given the operations already done on it and the
  one attempted, the exception it raises, if any.
\<close>

type_synonym source = "(exn + string) list"
type_synonym sink = "ev list \<Rightarrow> ev \<Rightarrow> exn option"

datatype thread_name = T_out | T_err | T_in

text \<open>
  The calls the main thread (the signal handler runs in it) makes on the signal,
  subprocess and threading libraries, logged in order. \<open>Thread t d\<close> is the creation of
  the thread with target \<open>t\<close> and \<^verbatim>\<open>daemon=d\<close>. \<open>Join\<close> is in the vocabulary so that a
  log can be said to hold no such call.
\<close>

datatype action =
    Signal signum
  | Popen popen_args
  | Poll handle
  | Terminate handle
  | Thread thread_name bool
  | Start thread_name
  | Join thread_name
  | Wait handle

text \<open>
  Where the main thread can be when a signal arrives, once the handlers are set:
  \<^item> \<open>BeforeSpawn\<close>: between line 21 and line 23, no child yet;
  \<^item> \<open>DuringSpawn\<close>: inside line 23, when \<^verbatim>\<open>Popen\<close> has created the child and the
    assignment to \<^verbatim>\<open>proc\<close> has not happened yet;
  \<^item> \<open>BeforeThreads\<close>: between the assignment of line 23 and the creation of the threads;
  \<^item> \<open>DuringWait\<close>: while it blocks in \<^verbatim>\<open>proc.wait()\<close>;
  \<^item> \<open>AfterWait\<close>: between the return of \<^verbatim>\<open>proc.wait()\<close> and the \<^verbatim>\<open>sys.exit\<close> of line 76.

  Lines 62 to 68 are one step: a signal inside them is not modelled. Only the first signal
  matters, since its handler ends the script.
\<close>

datatype point = BeforeSpawn | DuringSpawn | BeforeThreads | DuringWait | AfterWait

datatype disposition = SIG_DFL | Handle_termination

subsection \<open>Text mode\<close>

text \<open>
  Line 30 opens the child's pipes with \<^verbatim>\<open>text=True\<close>: \<^verbatim>\<open>proc.stdout\<close> and \<^verbatim>\<open>proc.stderr\<close>
  are read in universal-newlines mode. What the child writes is a sequence of characters
  (decoding is not modelled; a sequence that cannot be decoded is a failing read). The
  reader replaces every \<^verbatim>\<open>\r\n\<close> and every other \<^verbatim>\<open>\r\<close> by \<^verbatim>\<open>\n\<close>, and its iterator
  yields the result cut after each \<^verbatim>\<open>\n\<close>; the last line may lack one.
\<close>

definition CR :: char where
  "CR = CHR 0x0D"

definition LF :: char where
  "LF = CHR 0x0A"

fun universal_newlines :: "string \<Rightarrow> string" where
  "universal_newlines [] = []"
| "universal_newlines [c] = [if c = CR then LF else c]"
| "universal_newlines (c # d # cs) =
     (if c = CR \<and> d = LF then LF # universal_newlines cs
      else if c = CR then LF # universal_newlines (d # cs)
      else c # universal_newlines (d # cs))"

fun split_lines :: "string \<Rightarrow> string list" where
  "split_lines [] = []"
| "split_lines (c # cs) =
     (if c = LF then [c] # split_lines cs
      else case split_lines cs of [] \<Rightarrow> [[c]] | l # ls \<Rightarrow> (c # l) # ls)"

text \<open>
  What comes through a pipe of the child: the characters it wrote, and the exception that
  ends the reading in place of end-of-stream, if any (then the characters are those of the
  lines read before it).
\<close>

type_synonym pipe = "string \<times> exn option"

definition text_lines :: "pipe \<Rightarrow> source" where
  "text_lines c =
     map Inr (split_lines (universal_newlines (fst c))) @
     (case snd c of None \<Rightarrow> [] | Some e \<Rightarrow> [Inl e])"

subsection \<open>The world\<close>

text \<open>
  \<open>signal_at\<close> is the point at which the first signal arrives and which one it is, if
  any. \<open>poll p\<close> is what \<^verbatim>\<open>proc.poll()\<close> returns when the handler asks: \<open>None\<close> while the
  child runs. \<open>terminate p\<close> and \<open>wait p\<close> say what these calls raise or return. The
  streams of the script are \<open>sys_stdin\<close> (the lines its iterator yields), \<open>sys_stdout\<close> and
  \<open>sys_stderr\<close>; \<open>proc_stdin p\<close> is the standard input of child \<open>p\<close>, \<open>child_stdout p\<close> and
  \<open>child_stderr p\<close> are what child \<open>p\<close> writes. \<open>cut_out\<close>, \<open>cut_err\<close> and \<open>cut_in\<close> say how
  far each relay thread gets before the interpreter shuts down (see \<open>cut_off\<close> below), and
  \<open>busy t\<close> whether thread \<open>t\<close>, if it has not finished by then, is inside a read, a write
  or a flush at that moment, holding the lock of a stream that the shutdown has to flush
  or close.
\<close>

record world =
  os_environ :: "string \<rightharpoonup> string"
  popen :: "popen_args \<Rightarrow> exn + handle"
  signal_at :: "(point \<times> signum) option"
  poll :: "handle \<Rightarrow> int option"
  terminate :: "handle \<Rightarrow> exn option"
  wait :: "handle \<Rightarrow> exn + int"
  sys_stdin :: source
  sys_stdout :: sink
  sys_stderr :: sink
  proc_stdin :: "handle \<Rightarrow> sink"
  child_stdout :: "handle \<Rightarrow> pipe"
  child_stderr :: "handle \<Rightarrow> pipe"
  cut_out :: "nat option"
  cut_err :: "nat option"
  cut_in :: "nat option"
  busy :: "thread_name \<Rightarrow> bool"

text \<open>\<^verbatim>\<open>proc.stdout\<close> and \<^verbatim>\<open>proc.stderr\<close> of child \<open>p\<close>, as their iterators deliver them.\<close>

definition proc_stdout :: "world \<Rightarrow> handle \<Rightarrow> source" where
  "proc_stdout w p = text_lines (child_stdout w p)"

definition proc_stderr :: "world \<Rightarrow> handle \<Rightarrow> source" where
  "proc_stderr w p = text_lines (child_stderr w p)"

record state =
  proc :: "handle option"
  handlers :: "signum \<Rightarrow> disposition"
  actions :: "action list"

definition init :: state where
  "init = \<lparr>proc = None, handlers = (\<lambda>_. SIG_DFL), actions = []\<rparr>"

definition log :: "action \<Rightarrow> state \<Rightarrow> state" where
  "log a s = s\<lparr>actions := actions s @ [a]\<rparr>"

subsection \<open>Exceptions in sequence\<close>

text \<open>
  A statement is a function from the state to a result and the new state. \<open>and_then\<close>
  is the semicolon: the second statement runs only if the first did not raise.
  \<open>try_pass\<close> is \<^verbatim>\<open>try: ... except: pass\<close>: whatever the body raises is dropped.
\<close>

definition and_then ::
  "('s \<Rightarrow> (exn + 'a) \<times> 's) \<Rightarrow> ('a \<Rightarrow> 's \<Rightarrow> (exn + 'b) \<times> 's) \<Rightarrow> 's \<Rightarrow> (exn + 'b) \<times> 's" where
  "and_then m f s = (case m s of (Inl e, s') \<Rightarrow> (Inl e, s') | (Inr x, s') \<Rightarrow> f x s')"

definition try_pass :: "(exn + unit) \<times> 's \<Rightarrow> (exn + unit) \<times> 's" where
  "try_pass r = (case r of (Inl e, s) \<Rightarrow> (Inr (), s) | (Inr u, s) \<Rightarrow> (Inr u, s))"

definition sys_exit :: "int \<Rightarrow> 's \<Rightarrow> (exn + 'a) \<times> 's" where
  "sys_exit n s = (Inl (SystemExit n), s)"

subsection \<open>The signal handler (lines 10 to 16)\<close>

definition proc_terminate :: "world \<Rightarrow> handle \<Rightarrow> state \<Rightarrow> (exn + unit) \<times> state" where
  "proc_terminate w p s =
     (case terminate w p of Some e \<Rightarrow> (Inl e, log (Terminate p) s)
      | None \<Rightarrow> (Inr (), log (Terminate p) s))"

text \<open>
  \<^verbatim>\<open>if proc and proc.poll() is None\<close>: with \<^verbatim>\<open>proc\<close> unset the conjunction is false and
  \<^verbatim>\<open>poll\<close> is not called. The handler always ends in \<^verbatim>\<open>sys.exit(0)\<close>.
\<close>

definition handle_termination :: "world \<Rightarrow> state \<Rightarrow> (exn + unit) \<times> state" where
  "handle_termination w s =
     (case proc s of
        None \<Rightarrow> sys_exit 0 s
      | Some p \<Rightarrow>
          (let s1 = log (Poll p) s in
           if poll w p = None
           then and_then (\<lambda>s. try_pass (proc_terminate w p s)) (\<lambda>_. sys_exit 0) s1
           else sys_exit 0 s1))"

text \<open>
  A signal arriving at point \<open>pt\<close> runs what the handler table holds for it, in the main
  thread. The default action ends the process without running any more of the script.
\<close>

definition deliver :: "world \<Rightarrow> point \<Rightarrow> state \<Rightarrow> (exn + unit) \<times> state" where
  "deliver w pt s =
     (case signal_at w of
        None \<Rightarrow> (Inr (), s)
      | Some (q, sg) \<Rightarrow>
          if q = pt
          then (case handlers s sg of
                  Handle_termination \<Rightarrow> handle_termination w s
                | SIG_DFL \<Rightarrow> (Inl (Unhandled sg), s))
          else (Inr (), s))"

subsection \<open>The main thread (lines 18 to 76)\<close>

definition signal_signal :: "signum \<Rightarrow> disposition \<Rightarrow> state \<Rightarrow> (exn + unit) \<times> state" where
  "signal_signal sg h s = (Inr (), log (Signal sg) (s\<lparr>handlers := (handlers s)(sg := h)\<rparr>))"

definition CREATE_NO_WINDOW :: nat where
  "CREATE_NO_WINDOW = 0x08000000"

definition main_popen_args :: "world \<Rightarrow> popen_args" where
  "main_popen_args w =
     \<lparr>args = [''node'', ''C:/Users/Shuakami/mcp-mail/dist/index.js''],
      stdin_pipe = True, stdout_pipe = True, stderr_pipe = True,
      env = os_environ w, creationflags = CREATE_NO_WINDOW,
      text_mode = True, bufsize = 1\<rparr>"

definition subprocess_Popen :: "world \<Rightarrow> popen_args \<Rightarrow> state \<Rightarrow> (exn + handle) \<times> state" where
  "subprocess_Popen w a s = (popen w a, log (Popen a) s)"

definition set_proc :: "handle \<Rightarrow> state \<Rightarrow> (exn + unit) \<times> state" where
  "set_proc p s = (Inr (), s\<lparr>proc := Some p\<rparr>)"

definition threading_Thread :: "thread_name \<Rightarrow> bool \<Rightarrow> state \<Rightarrow> (exn + unit) \<times> state" where
  "threading_Thread t daemon s = (Inr (), log (Thread t daemon) s)"

definition thread_start :: "thread_name \<Rightarrow> state \<Rightarrow> (exn + unit) \<times> state" where
  "thread_start t s = (Inr (), log (Start t) s)"

text \<open>
  \<^verbatim>\<open>proc.wait()\<close>; a signal that arrives while the main thread blocks runs its handler
  there, and what the handler raises comes out of the call.
\<close>

definition proc_wait :: "world \<Rightarrow> state \<Rightarrow> (exn + int) \<times> state" where
  "proc_wait w s =
     (case proc s of
        None \<Rightarrow> (Inl AttributeError, s)
      | Some p \<Rightarrow>
          and_then (deliver w DuringWait) (\<lambda>_ s. (wait w p, s)) (log (Wait p) s))"

text \<open>
  Lines 70 to 76. \<^verbatim>\<open>return_code\<close> starts as \<^verbatim>\<open>None\<close> and is assigned only when
  \<^verbatim>\<open>proc.wait()\<close> returns; only \<^verbatim>\<open>KeyboardInterrupt\<close> is caught, and its handler is
  \<^verbatim>\<open>handle_termination(None, None)\<close>. The last line is
  \<^verbatim>\<open>sys.exit(return_code if return_code is not None else 0)\<close>; a signal can still arrive
  between the return of the wait and that line.
\<close>

definition exit_code_of :: "int option \<Rightarrow> int" where
  "exit_code_of return_code = (case return_code of Some k \<Rightarrow> k | None \<Rightarrow> 0)"

definition wait_and_exit :: "world \<Rightarrow> state \<Rightarrow> (exn + unit) \<times> state" where
  "wait_and_exit w s =
     (case proc_wait w s of
        (Inr rc, s') \<Rightarrow>
          and_then (deliver w AfterWait) (\<lambda>_. sys_exit (exit_code_of (Some rc))) s'
      | (Inl KeyboardInterrupt, s') \<Rightarrow>
          and_then (handle_termination w) (\<lambda>_. sys_exit (exit_code_of None)) s'
      | (Inl e, s') \<Rightarrow> (Inl e, s'))"

text \<open>
  Line 23 is two steps, the call of \<^verbatim>\<open>Popen\<close> and the assignment of what it returns to
  \<^verbatim>\<open>proc\<close>, and a signal can be handled between them.
\<close>

definition main :: "world \<Rightarrow> state \<Rightarrow> (exn + unit) \<times> state" where
  "main w =
     and_then (signal_signal SIGINT Handle_termination) (\<lambda>_.
     and_then (signal_signal SIGTERM Handle_termination) (\<lambda>_.
     and_then (deliver w BeforeSpawn) (\<lambda>_.
     and_then (subprocess_Popen w (main_popen_args w)) (\<lambda>p.
     and_then (deliver w DuringSpawn) (\<lambda>_.
     and_then (set_proc p) (\<lambda>_.
     and_then (deliver w BeforeThreads) (\<lambda>_.
     and_then (threading_Thread T_out True) (\<lambda>_.
     and_then (threading_Thread T_err True) (\<lambda>_.
     and_then (threading_Thread T_in True) (\<lambda>_.
     and_then (thread_start T_out) (\<lambda>_.
     and_then (thread_start T_err) (\<lambda>_.
     and_then (thread_start T_in) (\<lambda>_.
     wait_and_exit w)))))))))))))"

subsection \<open>The three relays (lines 34 to 60)\<close>

text \<open>
  Each loop carries the operations done so far on the stream it writes. The first two
  leave the loop on an empty line; the third has no such test.
\<close>

fun read_stdout_loop :: "source \<Rightarrow> sink \<Rightarrow> ev list \<Rightarrow> (exn + unit) \<times> ev list" where
  "read_stdout_loop [] out evs = (Inr (), evs)"
| "read_stdout_loop (Inl e # rest) out evs = (Inl e, evs)"
| "read_stdout_loop (Inr line # rest) out evs =
     (if line = [] then (Inr (), evs)
      else case out evs (Write line) of
             Some e \<Rightarrow> (Inl e, evs)
           | None \<Rightarrow>
               (case out (evs @ [Write line]) Flush of
                  Some e \<Rightarrow> (Inl e, evs @ [Write line])
                | None \<Rightarrow> read_stdout_loop rest out (evs @ [Write line, Flush])))"

fun read_stderr_loop :: "source \<Rightarrow> sink \<Rightarrow> ev list \<Rightarrow> (exn + unit) \<times> ev list" where
  "read_stderr_loop [] err evs = (Inr (), evs)"
| "read_stderr_loop (Inl e # rest) err evs = (Inl e, evs)"
| "read_stderr_loop (Inr line # rest) err evs =
     (if line = [] then (Inr (), evs)
      else case err evs (Write line) of
             Some e \<Rightarrow> (Inl e, evs)
           | None \<Rightarrow>
               (case err (evs @ [Write line]) Flush of
                  Some e \<Rightarrow> (Inl e, evs @ [Write line])
                | None \<Rightarrow> read_stderr_loop rest err (evs @ [Write line, Flush])))"

fun forward_stdin_loop :: "source \<Rightarrow> sink \<Rightarrow> ev list \<Rightarrow> (exn + unit) \<times> ev list" where
  "forward_stdin_loop [] inp evs = (Inr (), evs)"
| "forward_stdin_loop (Inl e # rest) inp evs = (Inl e, evs)"
| "forward_stdin_loop (Inr line # rest) inp evs =
     (case inp evs (Write line) of
        Some e \<Rightarrow> (Inl e, evs)
      | None \<Rightarrow>
          (case inp (evs @ [Write line]) Flush of
             Some e \<Rightarrow> (Inl e, evs @ [Write line])
           | None \<Rightarrow> forward_stdin_loop rest inp (evs @ [Write line, Flush])))"

text \<open>
  The thread targets. They are closures over the global \<^verbatim>\<open>proc\<close>, read when the thread
  runs; the whole body, the attribute access included, is inside \<^verbatim>\<open>try: ... except: pass\<close>.
\<close>

definition read_stdout :: "world \<Rightarrow> state \<Rightarrow> (exn + unit) \<times> ev list" where
  "read_stdout w s =
     try_pass (case proc s of
                 None \<Rightarrow> (Inl AttributeError, [])
               | Some p \<Rightarrow> read_stdout_loop (proc_stdout w p) (sys_stdout w) [])"

definition read_stderr :: "world \<Rightarrow> state \<Rightarrow> (exn + unit) \<times> ev list" where
  "read_stderr w s =
     try_pass (case proc s of
                 None \<Rightarrow> (Inl AttributeError, [])
               | Some p \<Rightarrow> read_stderr_loop (proc_stderr w p) (sys_stderr w) [])"

definition forward_stdin :: "world \<Rightarrow> state \<Rightarrow> (exn + unit) \<times> ev list" where
  "forward_stdin w s =
     try_pass (case proc s of
                 None \<Rightarrow> (Inl AttributeError, [])
               | Some p \<Rightarrow> forward_stdin_loop (sys_stdin w) (proc_stdin w p) [])"

subsection \<open>A run of the script\<close>

text \<open>
  A daemon thread is abandoned when the interpreter exits. What it has done by then is
  a prefix of what it would do if left alone: \<open>Some k\<close> says that it got \<open>k\<close> stream
  operations done, \<open>None\<close> that it finished.
\<close>

definition cut_off :: "nat option \<Rightarrow> ev list \<Rightarrow> ev list" where
  "cut_off c evs = (case c of None \<Rightarrow> evs | Some k \<Rightarrow> take k evs)"

text \<open>
  What a run leaves behind: the exit status, the log of the main thread, and the
  operations each relay has done on the stream it writes (the script's standard output
  and standard error, the child's standard input).
\<close>

record outcome =
  exit :: status
  calls :: "action list"
  bridge_stdout :: "ev list"
  bridge_stderr :: "ev list"
  child_stdin :: "ev list"

text \<open>
  The script is \<^verbatim>\<open>main()\<close> and nothing else (lines 78 and 79). A thread has an effect only
  if \<^verbatim>\<open>start\<close> was called on it.
\<close>

definition started :: "thread_name \<Rightarrow> state \<Rightarrow> bool" where
  "started t s = (Start t \<in> set (actions s))"

definition done_out :: "world \<Rightarrow> state \<Rightarrow> ev list" where
  "done_out w s = (if started T_out s then cut_off (cut_out w) (snd (read_stdout w s)) else [])"

definition done_err :: "world \<Rightarrow> state \<Rightarrow> ev list" where
  "done_err w s = (if started T_err s then cut_off (cut_err w) (snd (read_stderr w s)) else [])"

definition done_in :: "world \<Rightarrow> state \<Rightarrow> ev list" where
  "done_in w s = (if started T_in s then cut_off (cut_in w) (snd (forward_stdin w s)) else [])"

text \<open>
  When \<^verbatim>\<open>main\<close> ends, by \<^verbatim>\<open>SystemExit\<close> or by another exception, the interpreter shuts
  down. The script has joined no thread and the shutdown does not wait for daemon
  threads to finish. It does two things that the relays bear on.

  It flushes \<^verbatim>\<open>sys.stdout\<close> and \<^verbatim>\<open>sys.stderr\<close>, and a flush that fails there makes the
  status 120, whatever \<^verbatim>\<open>main\<close> asked for. This flush is one more operation on the stream,
  after those the relay has done, and the stream says whether it fails. Before the threads
  are started the script has written nothing and there is nothing to flush.

  To flush and to close the streams it needs their locks. A relay thread that is stopped
  inside an operation holds the lock of its stream and never gives it back; the shutdown
  waits for the lock, gives up with a fatal error and calls \<^verbatim>\<open>abort()\<close>.

  A process killed by a signal it does not handle has no shutdown.
\<close>

definition cut :: "world \<Rightarrow> thread_name \<Rightarrow> nat option" where
  "cut w t = (case t of T_out \<Rightarrow> cut_out w | T_err \<Rightarrow> cut_err w | T_in \<Rightarrow> cut_in w)"

definition stuck :: "world \<Rightarrow> state \<Rightarrow> thread_name \<Rightarrow> bool" where
  "stuck w s t = (started t s \<and> cut w t \<noteq> None \<and> busy w t)"

definition aborts :: "world \<Rightarrow> state \<Rightarrow> bool" where
  "aborts w s = (stuck w s T_out \<or> stuck w s T_err \<or> stuck w s T_in)"

definition flush_fails :: "world \<Rightarrow> state \<Rightarrow> bool" where
  "flush_fails w s =
     ((started T_out s \<and> sys_stdout w (done_out w s) Flush \<noteq> None) \<or>
      (started T_err s \<and> sys_stderr w (done_err w s) Flush \<noteq> None))"

definition finish :: "world \<Rightarrow> state \<Rightarrow> status \<Rightarrow> status" where
  "finish w s st = (if aborts w s then Aborted else if flush_fails w s then Code 120 else st)"

definition shutdown :: "world \<Rightarrow> state \<Rightarrow> exn + unit \<Rightarrow> status" where
  "shutdown w s r =
     (case r of
        Inl (Unhandled sg) \<Rightarrow> BySignal sg
      | Inl e \<Rightarrow> finish w s (exit_status e)
      | Inr _ \<Rightarrow> finish w s (Code 0))"

definition run :: "world \<Rightarrow> outcome" where
  "run w =
     (case main w init of (r, s) \<Rightarrow>
        \<lparr>exit = shutdown w s r,
         calls = actions s,
         bridge_stdout = done_out w s,
         bridge_stderr = done_err w s,
         child_stdin = done_in w s\<rparr>)"

subsection \<open>Worlds to run the script in\<close>

text \<open>
  \<open>calm\<close>: the child is process 7, prints two lines and a warning, is sent one line and
  exits with code 3; no stream fails, no signal arrives, every thread finishes.
\<close>

definition calm :: world where
  "calm =
     \<lparr>os_environ = [''PATH'' \<mapsto> ''C:/Windows''],
      popen = (\<lambda>_. Inr 7),
      signal_at = None,
      poll = (\<lambda>_. None),
      terminate = (\<lambda>_. None),
      wait = (\<lambda>_. Inr 3),
      sys_stdin = [Inr ''ping\<newline>''],
      sys_stdout = (\<lambda>_ _. None),
      sys_stderr = (\<lambda>_ _. None),
      proc_stdin = (\<lambda>_ _ _. None),
      child_stdout = (\<lambda>_. (''pong\<newline>done\<newline>'', None)),
      child_stderr = (\<lambda>_. (''warn\<newline>'', None)),
      cut_out = None, cut_err = None, cut_in = None,
      busy = (\<lambda>_. False)\<rparr>"






definition busy_exit :: world where
  "busy_exit = calm\<lparr>cut_out := Some 2, busy := \<lambda>t. t = T_out\<rparr>"

subsection \<open>Vocabulary for the statements\<close>

text \<open>
  The calls the main thread has made when it reaches a point, given that it got there:
  lines 20 and 21, then the call of line 23, then lines 62 to 68 and the call of
  \<^verbatim>\<open>wait\<close>.
\<close>

definition calls_before :: "world \<Rightarrow> point \<Rightarrow> handle \<Rightarrow> action list" where
  "calls_before w pt p =
     (case pt of
        BeforeSpawn \<Rightarrow> [Signal SIGINT, Signal SIGTERM]
      | DuringSpawn \<Rightarrow> [Signal SIGINT, Signal SIGTERM, Popen (main_popen_args w)]
      | BeforeThreads \<Rightarrow> [Signal SIGINT, Signal SIGTERM, Popen (main_popen_args w)]
      | DuringWait \<Rightarrow>
          [Signal SIGINT, Signal SIGTERM, Popen (main_popen_args w),
           Thread T_out True, Thread T_err True, Thread T_in True,
           Start T_out, Start T_err, Start T_in, Wait p]
      | AfterWait \<Rightarrow>
          [Signal SIGINT, Signal SIGTERM, Popen (main_popen_args w),
           Thread T_out True, Thread T_err True, Thread T_in True,
           Start T_out, Start T_err, Start T_in, Wait p])"

text \<open>
  Whether the main thread gets to a point in a world, \<open>p\<close> being the child: the spawn has
  to succeed for every point after it, and the wait has to return for the last.
\<close>

definition reaches :: "world \<Rightarrow> point \<Rightarrow> handle \<Rightarrow> bool" where
  "reaches w pt p =
     (case pt of
        BeforeSpawn \<Rightarrow> True
      | AfterWait \<Rightarrow>
          popen w (main_popen_args w) = Inr p \<and> (case wait w p of Inr k \<Rightarrow> True | Inl e \<Rightarrow> False)
      | _ \<Rightarrow> popen w (main_popen_args w) = Inr p)"

text \<open>
  The states the main thread is in after line 21, after line 32 and when it calls
  \<^verbatim>\<open>wait\<close>, and the calls the handler makes when \<^verbatim>\<open>proc\<close> is set.
\<close>

definition installed :: state where
  "installed = \<lparr>proc = None, handlers = (\<lambda>_. Handle_termination),
                 actions = [Signal SIGINT, Signal SIGTERM]\<rparr>"

definition spawned :: "world \<Rightarrow> handle \<Rightarrow> state" where
  "spawned w p = \<lparr>proc = Some p, handlers = (\<lambda>_. Handle_termination),
                   actions = calls_before w BeforeThreads p\<rparr>"

definition waiting :: "world \<Rightarrow> handle \<Rightarrow> state" where
  "waiting w p = \<lparr>proc = Some p, handlers = (\<lambda>_. Handle_termination),
                   actions = calls_before w DuringWait p\<rparr>"

definition handler_calls :: "world \<Rightarrow> handle \<Rightarrow> action list" where
  "handler_calls w p = (if poll w p = None then [Poll p, Terminate p] else [Poll p])"

text \<open>
  Whether the threads are started in a world: the spawn succeeds and no signal ends the
  script before line 66.
\<close>

definition threads_run :: "world \<Rightarrow> handle \<Rightarrow> bool" where
  "threads_run w p =
     (popen w (main_popen_args w) = Inr p \<and>
      (case signal_at w of
         None \<Rightarrow> True
       | Some (pt, sg) \<Rightarrow> pt = DuringWait \<or> pt = AfterWait))"



text \<open>
  A shutdown that goes well: no started relay is stuck holding a lock, and the flushes of
  the script's standard output and standard error succeed.
\<close>

definition clean_shutdown :: "world \<Rightarrow> bool" where
  "clean_shutdown w = (\<not> aborts w (snd (main w init)) \<and> \<not> flush_fails w (snd (main w init)))"

text \<open>Which calls spawn a process, and which process a call acts on.\<close>

fun is_Popen :: "action \<Rightarrow> bool" where
  "is_Popen (Popen a) = True"
| "is_Popen _ = False"

fun handle_of :: "action \<Rightarrow> handle option" where
  "handle_of (Poll p) = Some p"
| "handle_of (Terminate p) = Some p"
| "handle_of (Wait p) = Some p"
| "handle_of _ = None"

text \<open>
  The lines a stream delivers before its first failing read, and the operations that
  forward a list of lines one by one: each line written as it is, then a flush.
\<close>

fun lines_until_error :: "source \<Rightarrow> string list" where
  "lines_until_error [] = []"
| "lines_until_error (Inl e # rest) = []"
| "lines_until_error (Inr line # rest) = line # lines_until_error rest"

definition line_by_line :: "string list \<Rightarrow> ev list" where
  "line_by_line ls = concat (map (\<lambda>l. [Write l, Flush]) ls)"

text \<open>
  The operations of a list that a stream takes, in order, up to the first one it refuses;
  \<open>h\<close> is what has been done on the stream before.
\<close>

fun accepted :: "sink \<Rightarrow> ev list \<Rightarrow> ev list \<Rightarrow> ev list" where
  "accepted snk h [] = []"
| "accepted snk h (e # es) =
     (case snk h e of None \<Rightarrow> e # accepted snk (h @ [e]) es | Some x \<Rightarrow> [])"


section \<open>Properties\<close>

subsection \<open>Auxiliary facts\<close>

lemma handle_termination_eq:
  "handle_termination w s =
     (Inl (SystemExit 0),
      case proc s of
        None \<Rightarrow> s
      | Some p \<Rightarrow>
          if poll w p = None then log (Terminate p) (log (Poll p) s) else log (Poll p) s)"
  by (simp add: handle_termination_def sys_exit_def and_then_def try_pass_def
      proc_terminate_def Let_def split: option.splits)

lemma both_installed:
  "((\<lambda>_. SIG_DFL)(SIGINT := Handle_termination, SIGTERM := Handle_termination)) sg
     = Handle_termination"
  by (cases sg) simp_all

lemma handler_table: "(\<lambda>_. SIG_DFL)(SIGINT := Handle_termination, SIGTERM := Handle_termination)
               = (\<lambda>_. Handle_termination)"
  by (rule ext) (rule both_installed)

lemma deliver_eq:
  "handlers s = (\<lambda>_. Handle_termination) \<Longrightarrow>
   deliver w pt s =
     (case signal_at w of
        None \<Rightarrow> (Inr (), s)
      | Some (q, sg) \<Rightarrow> if q = pt then handle_termination w s else (Inr (), s))"
  by (simp add: deliver_def split: option.splits prod.splits)

lemma main_eq:
  "main w init =
     and_then (deliver w BeforeSpawn) (\<lambda>_.
     and_then (subprocess_Popen w (main_popen_args w)) (\<lambda>p.
     and_then (deliver w DuringSpawn) (\<lambda>_.
     and_then (set_proc p) (\<lambda>_.
     and_then (deliver w BeforeThreads) (\<lambda>_ s.
       wait_and_exit w (s\<lparr>actions := actions s @
          [Thread T_out True, Thread T_err True, Thread T_in True,
           Start T_out, Start T_err, Start T_in]\<rparr>)))))) installed"
  by (simp add: main_def and_then_def signal_signal_def threading_Thread_def thread_start_def
      log_def init_def installed_def handler_table split: prod.splits sum.splits)

lemma main_early_signal:
  "signal_at w = Some (BeforeSpawn, sg) \<Longrightarrow> main w init = (Inl (SystemExit 0), installed)"
  by (simp add: main_eq and_then_def deliver_eq handle_termination_eq installed_def)

lemma main_spawn_fails:
  assumes "\<forall>sg. signal_at w \<noteq> Some (BeforeSpawn, sg)"
    and "popen w (main_popen_args w) = Inl e"
  shows "main w init = (Inl e, log (Popen (main_popen_args w)) installed)"
  using assms
  by (cases "signal_at w")
    (auto simp add: main_eq and_then_def deliver_eq installed_def subprocess_Popen_def)

lemma main_signal_during_spawn:
  assumes "signal_at w = Some (DuringSpawn, sg)"
    and "popen w (main_popen_args w) = Inr p"
  shows "main w init = (Inl (SystemExit 0), log (Popen (main_popen_args w)) installed)"
  using assms
  by (simp add: main_eq and_then_def deliver_eq installed_def subprocess_Popen_def
      log_def handle_termination_eq)

lemma main_signal_before_threads:
  assumes "signal_at w = Some (BeforeThreads, sg)"
    and "popen w (main_popen_args w) = Inr p"
  shows "main w init =
           (Inl (SystemExit 0),
            (spawned w p)\<lparr>actions := calls_before w BeforeThreads p @ handler_calls w p\<rparr>)"
  using assms
  by (simp add: main_eq and_then_def deliver_eq installed_def subprocess_Popen_def
      set_proc_def log_def handle_termination_eq spawned_def calls_before_def handler_calls_def)

lemma main_reaches_wait:
  assumes "signal_at w = None \<or> signal_at w = Some (DuringWait, sg) \<or>
           signal_at w = Some (AfterWait, sg)"
    and "popen w (main_popen_args w) = Inr p"
  shows "main w init =
           wait_and_exit w ((spawned w p)\<lparr>actions := calls_before w BeforeThreads p @
              [Thread T_out True, Thread T_err True, Thread T_in True,
               Start T_out, Start T_err, Start T_in]\<rparr>)"
  using assms
  by (auto simp add: main_eq and_then_def deliver_eq installed_def subprocess_Popen_def
      set_proc_def log_def spawned_def calls_before_def)

lemma wait_signal:
  assumes "signal_at w = Some (DuringWait, sg)" and "proc s = Some p"
      and "handlers s = (\<lambda>_. Handle_termination)"
  shows "wait_and_exit w s =
    (Inl (SystemExit 0), s\<lparr>actions := actions s @ Wait p # handler_calls w p\<rparr>)"
  using assms
  by (simp add: wait_and_exit_def proc_wait_def and_then_def deliver_eq log_def
      handle_termination_eq handler_calls_def)

lemma wait_quiet:
  assumes "signal_at w = None" and "proc s = Some p"
      and "handlers s = (\<lambda>_. Handle_termination)"
  shows "wait_and_exit w s =
    (case wait w p of
       Inr k \<Rightarrow> (Inl (SystemExit k), s\<lparr>actions := actions s @ [Wait p]\<rparr>)
     | Inl e \<Rightarrow>
        if e = KeyboardInterrupt
        then (Inl (SystemExit 0), s\<lparr>actions := actions s @ Wait p # handler_calls w p\<rparr>)
        else (Inl e, s\<lparr>actions := actions s @ [Wait p]\<rparr>))"
  using assms
  by (simp add: wait_and_exit_def proc_wait_def and_then_def deliver_eq log_def sys_exit_def
      exit_code_of_def handle_termination_eq handler_calls_def split: sum.splits exn.splits)

lemma wait_then_signal:
  assumes "signal_at w = Some (AfterWait, sg)" and "proc s = Some p"
      and "handlers s = (\<lambda>_. Handle_termination)"
  shows "wait_and_exit w s =
    (case wait w p of
       Inr k \<Rightarrow> (Inl (SystemExit 0), s\<lparr>actions := actions s @ Wait p # handler_calls w p\<rparr>)
     | Inl e \<Rightarrow>
        if e = KeyboardInterrupt
        then (Inl (SystemExit 0), s\<lparr>actions := actions s @ Wait p # handler_calls w p\<rparr>)
        else (Inl e, s\<lparr>actions := actions s @ [Wait p]\<rparr>))"
  using assms
  by (simp add: wait_and_exit_def proc_wait_def and_then_def deliver_eq log_def sys_exit_def
      exit_code_of_def handle_termination_eq handler_calls_def split: sum.splits exn.splits)

lemma main_waits:
  assumes "signal_at w = None \<or> signal_at w = Some (DuringWait, sg) \<or>
           signal_at w = Some (AfterWait, sg)"
    and "popen w (main_popen_args w) = Inr p"
  shows "main w init =
    (if signal_at w = Some (DuringWait, sg)
     then (Inl (SystemExit 0),
           (waiting w p)\<lparr>actions := calls_before w DuringWait p @ handler_calls w p\<rparr>)
     else case wait w p of
       Inr k \<Rightarrow>
         if signal_at w = None then (Inl (SystemExit k), waiting w p)
         else (Inl (SystemExit 0),
               (waiting w p)\<lparr>actions := calls_before w DuringWait p @ handler_calls w p\<rparr>)
     | Inl e \<Rightarrow>
         if e = KeyboardInterrupt
         then (Inl (SystemExit 0),
               (waiting w p)\<lparr>actions := calls_before w DuringWait p @ handler_calls w p\<rparr>)
         else (Inl e, waiting w p))"
proof -
  let ?s = "(spawned w p)\<lparr>actions := calls_before w BeforeThreads p @
              [Thread T_out True, Thread T_err True, Thread T_in True,
               Start T_out, Start T_err, Start T_in]\<rparr>"
  have m: "main w init = wait_and_exit w ?s"
    using assms by (rule main_reaches_wait)
  have p: "proc ?s = Some p" and h: "handlers ?s = (\<lambda>_. Handle_termination)"
    by (simp_all add: spawned_def)
  from assms(1) consider "signal_at w = None" | "signal_at w = Some (DuringWait, sg)"
    | "signal_at w = Some (AfterWait, sg)"
    by auto
  then show ?thesis
  proof cases
    case 1
    then show ?thesis
      by (simp add: m wait_quiet [where p = p] spawned_def waiting_def calls_before_def
          split: sum.splits)
  next
    case 2
    then show ?thesis
      by (simp add: m wait_signal [where p = p and sg = sg] spawned_def waiting_def calls_before_def)
  next
    case 3
    then show ?thesis
      by (simp add: m wait_then_signal [where p = p and sg = sg] spawned_def waiting_def calls_before_def
          split: sum.splits)
  qed
qed

lemma main_cases [case_names before_spawn spawn_fails during_spawn before_threads
    during_wait after_wait returns interrupted wait_raises]:
  obtains
    sg where "signal_at w = Some (BeforeSpawn, sg)"
      and "main w init = (Inl (SystemExit 0), installed)"
  | e where "\<forall>sg. signal_at w \<noteq> Some (BeforeSpawn, sg)"
      and "popen w (main_popen_args w) = Inl e"
      and "main w init = (Inl e, log (Popen (main_popen_args w)) installed)"
  | sg p where "signal_at w = Some (DuringSpawn, sg)"
      and "popen w (main_popen_args w) = Inr p"
      and "main w init = (Inl (SystemExit 0), log (Popen (main_popen_args w)) installed)"
  | sg p where "signal_at w = Some (BeforeThreads, sg)"
      and "popen w (main_popen_args w) = Inr p"
      and "main w init =
             (Inl (SystemExit 0),
              (spawned w p)\<lparr>actions := calls_before w BeforeThreads p @ handler_calls w p\<rparr>)"
  | sg p where "signal_at w = Some (DuringWait, sg)"
      and "popen w (main_popen_args w) = Inr p"
      and "main w init =
             (Inl (SystemExit 0),
              (waiting w p)\<lparr>actions := calls_before w DuringWait p @ handler_calls w p\<rparr>)"
  | sg p k where "signal_at w = Some (AfterWait, sg)"
      and "popen w (main_popen_args w) = Inr p" and "wait w p = Inr k"
      and "main w init =
             (Inl (SystemExit 0),
              (waiting w p)\<lparr>actions := calls_before w DuringWait p @ handler_calls w p\<rparr>)"
  | p k where "signal_at w = None"
      and "popen w (main_popen_args w) = Inr p" and "wait w p = Inr k"
      and "main w init = (Inl (SystemExit k), waiting w p)"
  | p where "signal_at w = None \<or> (\<exists>sg. signal_at w = Some (AfterWait, sg))"
      and "popen w (main_popen_args w) = Inr p" and "wait w p = Inl KeyboardInterrupt"
      and "main w init =
             (Inl (SystemExit 0),
              (waiting w p)\<lparr>actions := calls_before w DuringWait p @ handler_calls w p\<rparr>)"
  | p e where "signal_at w = None \<or> (\<exists>sg. signal_at w = Some (AfterWait, sg))"
      and "popen w (main_popen_args w) = Inr p" and "wait w p = Inl e"
      and "e \<noteq> KeyboardInterrupt"
      and "main w init = (Inl e, waiting w p)"
proof (cases "\<exists>sg. signal_at w = Some (BeforeSpawn, sg)")
  case True
  then show ?thesis
    using main_early_signal that(1) by blast
next
  case nb: False
  show ?thesis
  proof (cases "popen w (main_popen_args w)")
    case (Inl e)
    with nb show ?thesis
      using main_spawn_fails [of w e] that(2) by blast
  next
    case (Inr p)
    have late: ?thesis
      if l: "signal_at w = None \<or> signal_at w = Some (DuringWait, sg) \<or>
             signal_at w = Some (AfterWait, sg)" for sg
    proof -
      note m = main_waits [OF l Inr]
      show ?thesis
      proof (cases "signal_at w = Some (DuringWait, sg)")
        case True
        with m Inr show ?thesis
          using \<open>\<And>sg p. \<lbrakk>signal_at w = Some (DuringWait, sg);
              popen w (main_popen_args w) = Inr p;
              main w init =
                (Inl (SystemExit 0),
                 (waiting w p)\<lparr>actions := calls_before w DuringWait p @ handler_calls w p\<rparr>)\<rbrakk>
              \<Longrightarrow> thesis\<close> [of sg p]
          by simp
      next
        case nd: False
        with l have q: "signal_at w = None \<or> signal_at w = Some (AfterWait, sg)"
          by blast
        then have q': "signal_at w = None \<or> (\<exists>sg. signal_at w = Some (AfterWait, sg))"
          by blast
        show ?thesis
        proof (cases "wait w p")
          case wl: (Inl e)
          show ?thesis
          proof (cases "e = KeyboardInterrupt")
            case True
            with m nd wl Inr q' show ?thesis
              using \<open>\<And>p. \<lbrakk>signal_at w = None \<or> (\<exists>sg. signal_at w = Some (AfterWait, sg));
                  popen w (main_popen_args w) = Inr p; wait w p = Inl KeyboardInterrupt;
                  main w init =
                    (Inl (SystemExit 0),
                     (waiting w p)\<lparr>actions := calls_before w DuringWait p @ handler_calls w p\<rparr>)\<rbrakk>
                  \<Longrightarrow> thesis\<close> [of p]
              by simp
          next
            case False
            with m nd wl Inr q' show ?thesis
              using \<open>\<And>p e. \<lbrakk>signal_at w = None \<or> (\<exists>sg. signal_at w = Some (AfterWait, sg));
                  popen w (main_popen_args w) = Inr p; wait w p = Inl e;
                  e \<noteq> KeyboardInterrupt; main w init = (Inl e, waiting w p)\<rbrakk>
                  \<Longrightarrow> thesis\<close> [of p e]
              by simp
          qed
        next
          case wr: (Inr k)
          show ?thesis
          proof (cases "signal_at w = None")
            case True
            with m nd wr Inr show ?thesis
              using \<open>\<And>p k. \<lbrakk>signal_at w = None; popen w (main_popen_args w) = Inr p;
                  wait w p = Inr k; main w init = (Inl (SystemExit k), waiting w p)\<rbrakk>
                  \<Longrightarrow> thesis\<close> [of p k]
              by simp
          next
            case False
            with q have a: "signal_at w = Some (AfterWait, sg)"
              by blast
            with m nd wr Inr show ?thesis
              using \<open>\<And>sg p k. \<lbrakk>signal_at w = Some (AfterWait, sg);
                  popen w (main_popen_args w) = Inr p; wait w p = Inr k;
                  main w init =
                    (Inl (SystemExit 0),
                     (waiting w p)\<lparr>actions := calls_before w DuringWait p @ handler_calls w p\<rparr>)\<rbrakk>
                  \<Longrightarrow> thesis\<close> [of sg p k]
              by simp
          qed
        qed
      qed
    qed
    show ?thesis
    proof (cases "signal_at w")
      case None
      then show ?thesis
        using late [of SIGINT] by blast
    next
      case (Some a)
      obtain pt sg where a: "a = (pt, sg)" by (cases a)
      show ?thesis
      proof (cases pt)
        case BeforeSpawn
        with nb Some a show ?thesis by simp
      next
        case DuringSpawn
        with Some a Inr show ?thesis
          using main_signal_during_spawn [of w sg p] that(3) [of sg p] by simp
      next
        case BeforeThreads
        with Some a Inr show ?thesis
          using main_signal_before_threads [of w sg p] that(4) [of sg p] by simp
      next
        case DuringWait
        with Some a show ?thesis
          using late [of sg] by blast
      next
        case AfterWait
        with Some a show ?thesis
          using late [of sg] by blast
      qed
    qed
  qed
qed

lemma main_returns:
  assumes "signal_at w = None" and "popen w (main_popen_args w) = Inr p"
    and "wait w p = Inr k"
  shows "main w init = (Inl (SystemExit k), waiting w p)"
  using assms main_waits [of w SIGINT p] by simp

lemma run_fields:
  "exit (run w) = shutdown w (snd (main w init)) (fst (main w init))"
  "calls (run w) = actions (snd (main w init))"
  "bridge_stdout (run w) =
     (if started T_out (snd (main w init))
      then cut_off (cut_out w) (snd (read_stdout w (snd (main w init)))) else [])"
  "bridge_stderr (run w) =
     (if started T_err (snd (main w init))
      then cut_off (cut_err w) (snd (read_stderr w (snd (main w init)))) else [])"
  "child_stdin (run w) =
     (if started T_in (snd (main w init))
      then cut_off (cut_in w) (snd (forward_stdin w (snd (main w init)))) else [])"
  by (simp_all add: run_def done_out_def done_err_def done_in_def split: prod.splits)

lemma calls_run:
  "\<exists>pt p tl. calls (run w) = calls_before w pt p @ tl \<and>
      (tl = [] \<or> (pt \<noteq> BeforeSpawn \<and> tl = handler_calls w p)) \<and>
      (pt = DuringWait \<or> tl \<noteq> [] \<longrightarrow> popen w (main_popen_args w) = Inr p)"
proof (cases w rule: main_cases)
  case (before_spawn sg)
  then have "calls (run w) = calls_before w BeforeSpawn 0 @ []"
    by (simp add: run_fields installed_def calls_before_def)
  then show ?thesis by blast
next
  case (spawn_fails e)
  then have "calls (run w) = calls_before w BeforeThreads 0 @ []"
    by (simp add: run_fields installed_def calls_before_def log_def)
  then show ?thesis by blast
next
  case (during_spawn sg p)
  then have "calls (run w) = calls_before w BeforeThreads 0 @ []"
    by (simp add: run_fields installed_def calls_before_def log_def)
  then show ?thesis by blast
next
  case (before_threads sg p)
  then have "calls (run w) = calls_before w BeforeThreads p @ handler_calls w p"
    by (simp add: run_fields)
  with before_threads(2) show ?thesis by blast
next
  case (during_wait sg p)
  then have "calls (run w) = calls_before w DuringWait p @ handler_calls w p"
    by (simp add: run_fields)
  with during_wait(2) show ?thesis by blast
next
  case (after_wait sg p k)
  then have "calls (run w) = calls_before w DuringWait p @ handler_calls w p"
    by (simp add: run_fields)
  with after_wait(2) show ?thesis by blast
next
  case (returns p k)
  then have "calls (run w) = calls_before w DuringWait p @ []"
    by (simp add: run_fields waiting_def)
  with returns(2) show ?thesis by blast
next
  case (interrupted p)
  then have "calls (run w) = calls_before w DuringWait p @ handler_calls w p"
    by (simp add: run_fields)
  with interrupted(2) show ?thesis by blast
next
  case (wait_raises p e)
  then have "calls (run w) = calls_before w DuringWait p @ []"
    by (simp add: run_fields waiting_def)
  with wait_raises(2) show ?thesis by blast
qed

lemma snd_try_pass: "snd (try_pass r) = snd r"
  by (cases r) (simp add: try_pass_def split: sum.splits)


lemma started_waiting: "started t ((waiting w p)\<lparr>actions := calls_before w DuringWait p @ rest\<rparr>)"
  by (cases t) (simp_all add: started_def calls_before_def)

lemma started_waiting': "started t (waiting w p)"
  by (cases t) (simp_all add: waiting_def started_def calls_before_def)

lemma main_started:
  assumes "threads_run w p"
  shows "proc (snd (main w init)) = Some p"
    and "started t (snd (main w init))"
proof -
  have "proc (snd (main w init)) = Some p \<and> started t (snd (main w init))"
  proof (cases w rule: main_cases)
    case (before_spawn sg)
    with assms show ?thesis by (simp add: threads_run_def)
  next
    case (spawn_fails e)
    with assms show ?thesis by (simp add: threads_run_def)
  next
    case (during_spawn sg p)
    with assms show ?thesis by (simp add: threads_run_def)
  next
    case (before_threads sg p)
    with assms show ?thesis by (simp add: threads_run_def)
  next
    case (during_wait sg' p')
    with assms show ?thesis
      by (simp add: threads_run_def started_waiting) (simp add: waiting_def)
  next
    case (after_wait sg' p' k)
    with assms show ?thesis
      by (simp add: threads_run_def started_waiting) (simp add: waiting_def)
  next
    case (returns p' k)
    with assms show ?thesis
      by (simp add: threads_run_def started_waiting') (simp add: waiting_def)
  next
    case (interrupted p')
    with assms show ?thesis
      by (simp add: threads_run_def started_waiting) (simp add: waiting_def)
  next
    case (wait_raises p' e)
    with assms show ?thesis
      by (simp add: threads_run_def started_waiting') (simp add: waiting_def)
  qed
  then show "proc (snd (main w init)) = Some p" and "started t (snd (main w init))"
    by simp_all
qed

lemma main_not_started:
  assumes "\<forall>p. \<not> threads_run w p"
  shows "\<not> started t (snd (main w init))"
proof (cases w rule: main_cases)
  case (before_spawn sg)
  then show ?thesis by (simp add: started_def installed_def)
next
  case (spawn_fails e)
  then show ?thesis by (simp add: started_def installed_def log_def)
next
  case (during_spawn sg p)
  then show ?thesis by (simp add: started_def installed_def log_def)
next
  case (before_threads sg p)
  then show ?thesis
    by (simp add: started_def calls_before_def handler_calls_def)
next
  case (during_wait sg' p')
  with assms show ?thesis by (auto simp add: threads_run_def)
next
  case (after_wait sg' p' k)
  with assms show ?thesis by (auto simp add: threads_run_def)
next
  case (returns p' k)
  with assms show ?thesis by (auto simp add: threads_run_def)
next
  case (interrupted p')
  with assms show ?thesis by (auto simp add: threads_run_def)
next
  case (wait_raises p' e)
  with assms show ?thesis by (auto simp add: threads_run_def)
qed

lemma not_threads_run:
  assumes "signal_at w = Some (BeforeSpawn, sg) \<or> signal_at w = Some (DuringSpawn, sg) \<or>
           signal_at w = Some (BeforeThreads, sg) \<or> popen w (main_popen_args w) = Inl e"
  shows "\<forall>p. \<not> threads_run w p"
  using assms by (auto simp add: threads_run_def)

lemma relays_started:
  assumes "threads_run w p"
  shows "bridge_stdout (run w) =
           cut_off (cut_out w) (snd (read_stdout_loop (proc_stdout w p) (sys_stdout w) []))"
    and "bridge_stderr (run w) =
           cut_off (cut_err w) (snd (read_stderr_loop (proc_stderr w p) (sys_stderr w) []))"
    and "child_stdin (run w) =
           cut_off (cut_in w) (snd (forward_stdin_loop (sys_stdin w) (proc_stdin w p) []))"
  using main_started [OF assms]
  by (simp_all add: run_fields read_stdout_def read_stderr_def forward_stdin_def snd_try_pass)

lemma relays_not_started:
  assumes "\<forall>p. \<not> threads_run w p"
  shows "bridge_stdout (run w) = []" and "bridge_stderr (run w) = []"
    and "child_stdin (run w) = []"
  using main_not_started [OF assms]
  by (simp_all add: run_fields)

lemma finish_not_started:
  assumes "\<forall>t. \<not> started t s"
  shows "finish w s st = st"
  using assms by (simp add: finish_def aborts_def stuck_def flush_fails_def)

lemma exit_not_started:
  assumes "\<forall>p. \<not> threads_run w p"
  shows "exit (run w) = (case fst (main w init) of
           Inl (Unhandled sg) \<Rightarrow> BySignal sg | Inl e \<Rightarrow> exit_status e | Inr _ \<Rightarrow> Code 0)"
proof -
  have "\<forall>t. \<not> started t (snd (main w init))"
    using main_not_started [OF assms] by simp
  then show ?thesis
    by (simp add: run_fields shutdown_def finish_not_started split: sum.splits exn.splits)
qed

lemma exit_SystemExit:
  assumes "fst (main w init) = Inl (SystemExit n)"
  shows "exit (run w) =
           (if aborts w (snd (main w init)) then Aborted
            else if flush_fails w (snd (main w init)) then Code 120
            else Code (n mod 256))"
  using assms by (simp add: run_fields shutdown_def finish_def)

lemma proc_log: "proc (log a s) = proc s"
  by (simp add: log_def)

lemma proc_handle_termination: "proc (snd (handle_termination w s)) = proc s"
  by (simp add: handle_termination_eq proc_log split: option.splits)

lemma proc_deliver: "proc (snd (deliver w pt s)) = proc s"
  by (simp add: deliver_def proc_handle_termination split: option.splits prod.splits disposition.splits)

lemma proc_and_then:
  assumes "\<And>s. proc (snd (m s)) = proc s" and "\<And>x s. proc (snd (f x s)) = proc s"
  shows "proc (snd (and_then m f s)) = proc s"
proof (cases "m s")
  case (Pair r s')
  then have "proc s' = proc s"
    using assms(1) [of s] by simp
  with Pair show ?thesis
    using assms(2) by (cases r) (simp_all add: and_then_def)
qed

lemma proc_sys_exit: "proc (snd (sys_exit n s)) = proc s"
  by (simp add: sys_exit_def)

lemma proc_proc_wait: "proc (snd (proc_wait w s)) = proc s"
proof (cases "proc s")
  case None
  then show ?thesis
    by (simp add: proc_wait_def)
next
  case (Some p)
  have "proc (snd (and_then (deliver w DuringWait) (\<lambda>_ s. (wait w p, s)) (log (Wait p) s)))
          = proc (log (Wait p) s)"
    by (rule proc_and_then) (simp_all add: proc_deliver)
  with Some show ?thesis
    by (simp add: proc_wait_def proc_log)
qed

lemma proc_wait_and_exit: "proc (snd (wait_and_exit w s)) = proc s"
proof (cases "proc_wait w s")
  case (Pair r s')
  then have p: "proc s' = proc s"
    using proc_proc_wait [of w s] by simp
  show ?thesis
  proof (cases r)
    case (Inl e)
    have "proc (snd (and_then (handle_termination w) (\<lambda>_. sys_exit (exit_code_of None)) s'))
            = proc s'"
      by (rule proc_and_then) (simp_all add: proc_handle_termination proc_sys_exit)
    with Pair Inl p show ?thesis
      by (cases e) (simp_all add: wait_and_exit_def)
  next
    case (Inr rc)
    have "proc (snd (and_then (deliver w AfterWait) (\<lambda>_. sys_exit (exit_code_of (Some rc))) s'))
            = proc s'"
      by (rule proc_and_then) (simp_all add: proc_deliver proc_sys_exit)
    with Pair Inr p show ?thesis
      by (simp add: wait_and_exit_def)
  qed
qed

lemma one_spawn:
  "length (filter is_Popen (calls (run w))) \<le> 1 \<and>
   ((length (filter is_Popen (calls (run w))) = 1)
      = (\<forall>sg. signal_at w \<noteq> Some (BeforeSpawn, sg))) \<and>
   (\<forall>a q. a \<in> set (calls (run w)) \<and> handle_of a = Some q
      \<longrightarrow> popen w (main_popen_args w) = Inr q) \<and>
   (\<forall>q. proc (snd (main w init)) = Some q \<longrightarrow> popen w (main_popen_args w) = Inr q)"
proof (cases w rule: main_cases)
  case (before_spawn sg)
  then show ?thesis
    by (auto simp add: run_fields installed_def)
next
  case (spawn_fails e)
  then show ?thesis
    by (auto simp add: run_fields installed_def log_def)
next
  case (during_spawn sg p)
  then show ?thesis
    by (auto simp add: run_fields installed_def log_def)
next
  case (before_threads sg p)
  then show ?thesis
    by (auto simp add: run_fields spawned_def calls_before_def handler_calls_def)
next
  case (during_wait sg p)
  then show ?thesis
    by (auto simp add: run_fields waiting_def calls_before_def handler_calls_def)
next
  case (after_wait sg p k)
  then show ?thesis
    by (auto simp add: run_fields waiting_def calls_before_def handler_calls_def)
next
  case (returns p k)
  then show ?thesis
    by (auto simp add: run_fields waiting_def calls_before_def)
next
  case (interrupted p)
  then show ?thesis
    by (auto simp add: run_fields waiting_def calls_before_def handler_calls_def)
next
  case (wait_raises p e)
  then show ?thesis
    by (auto simp add: run_fields waiting_def calls_before_def)
qed

lemma relays_same_child:
  "(bridge_stdout (run w) = [] \<and> bridge_stderr (run w) = [] \<and> child_stdin (run w) = []) \<or>
   (\<exists>p. popen w (main_popen_args w) = Inr p \<and>
      bridge_stdout (run w) =
        cut_off (cut_out w) (snd (read_stdout_loop (proc_stdout w p) (sys_stdout w) [])) \<and>
      bridge_stderr (run w) =
        cut_off (cut_err w) (snd (read_stderr_loop (proc_stderr w p) (sys_stderr w) [])) \<and>
      child_stdin (run w) =
        cut_off (cut_in w) (snd (forward_stdin_loop (sys_stdin w) (proc_stdin w p) [])))"
proof (cases "\<exists>p. threads_run w p")
  case True
  then obtain p where t: "threads_run w p" by blast
  then have "popen w (main_popen_args w) = Inr p"
    by (simp add: threads_run_def)
  with relays_started [OF t] show ?thesis by blast
next
  case False
  then have "\<forall>p. \<not> threads_run w p" by blast
  from relays_not_started [OF this] show ?thesis by blast
qed

lemma handle_termination_cong:
  assumes "poll w' = poll w"
  shows "handle_termination w' = handle_termination w"
  unfolding handle_termination_eq fun_eq_iff assms by simp

lemma deliver_cong:
  assumes "signal_at w' = signal_at w" and "poll w' = poll w"
  shows "deliver w' = deliver w"
  unfolding deliver_def fun_eq_iff assms(1) handle_termination_cong [OF assms(2)] by simp

lemma wait_and_exit_cong:
  assumes "signal_at w' = signal_at w" and "poll w' = poll w" and "wait w' = wait w"
  shows "wait_and_exit w' = wait_and_exit w"
  unfolding wait_and_exit_def proc_wait_def fun_eq_iff assms(3)
    deliver_cong [OF assms(1,2)] handle_termination_cong [OF assms(2)] by simp

lemma main_cong:
  assumes "os_environ w' = os_environ w" and "popen w' = popen w"
    and "signal_at w' = signal_at w" and "poll w' = poll w" and "wait w' = wait w"
  shows "main w' = main w"
proof -
  have a: "main_popen_args w' = main_popen_args w"
    using assms by (simp add: main_popen_args_def)
  have b: "subprocess_Popen w' = subprocess_Popen w"
    using assms by (simp add: subprocess_Popen_def fun_eq_iff)
  show ?thesis
    unfolding main_def a b deliver_cong [OF assms(3,4)] wait_and_exit_cong [OF assms(3,4,5)]
    by (rule refl)
qed

lemma run_cong:
  assumes "os_environ w' = os_environ w" and "popen w' = popen w"
    and "signal_at w' = signal_at w" and "poll w' = poll w" and "wait w' = wait w"
  shows "calls (run w') = calls (run w)"
  by (simp_all add: run_fields main_cong [OF assms])


text \<open>
  The three loops: what they have done is always the beginning of the line-by-line
  forwarding of their input, and all of it when nothing fails.
\<close>

lemma line_by_line_simps [simp]:
  "line_by_line [] = []"
  "line_by_line (l # ls) = Write l # Flush # line_by_line ls"
  by (simp_all add: line_by_line_def)


lemma lines_until_error_map [simp]: "lines_until_error (map Inr ls) = ls"
  by (induction ls) simp_all







lemma accepted_prefix: "prefix (accepted snk h es) es"
  by (induction es arbitrary: h) (simp_all split: option.splits)





lemma prefix_cut_off: "prefix xs ys \<Longrightarrow> prefix (cut_off c xs) ys"
  by (cases c) (auto simp add: cut_off_def intro: prefix_order.trans [OF take_is_prefix])


text \<open>The shutdown of a run, by whether the threads are started.\<close>

lemma aborts_started:
  assumes "threads_run w p"
  shows "aborts w (snd (main w init)) =
           ((cut_out w \<noteq> None \<and> busy w T_out) \<or> (cut_err w \<noteq> None \<and> busy w T_err) \<or>
            (cut_in w \<noteq> None \<and> busy w T_in))"
  using main_started(2) [OF assms] by (simp add: aborts_def stuck_def cut_def)


lemma clean_not_started:
  assumes "\<forall>p. \<not> threads_run w p"
  shows "\<not> aborts w (snd (main w init))" and "\<not> flush_fails w (snd (main w init))"
  using main_not_started [OF assms] by (simp_all add: aborts_def stuck_def flush_fails_def)

lemma finish_clean: "clean_shutdown w \<Longrightarrow> finish w (snd (main w init)) st = st"
  by (simp add: clean_shutdown_def finish_def)

lemma exit_finish:
  assumes "fst (main w init) = Inl (SystemExit n)"
  shows "exit (run w) = finish w (snd (main w init)) (Code (n mod 256))"
  using assms by (simp add: run_fields shutdown_def)

lemma threads_runI:
  assumes "popen w (main_popen_args w) = Inr p"
    and "signal_at w = None \<or> signal_at w = Some (DuringWait, sg) \<or>
         signal_at w = Some (AfterWait, sg)"
  shows "threads_run w p"
  using assms by (auto simp add: threads_run_def)









lemma main_interrupted:
  assumes "popen w (main_popen_args w) = Inr p"
    and "(\<exists>sg. signal_at w = Some (DuringWait, sg)) \<or>
         ((signal_at w = None \<or> (\<exists>sg. signal_at w = Some (AfterWait, sg))) \<and>
          wait w p = Inl KeyboardInterrupt) \<or>
         ((\<exists>sg. signal_at w = Some (AfterWait, sg)) \<and> (\<exists>k. wait w p = Inr k))"
  shows "main w init =
           (Inl (SystemExit 0),
            (waiting w p)\<lparr>actions := calls_before w DuringWait p @ handler_calls w p\<rparr>)"
proof -
  from assms(2) consider sg where "signal_at w = Some (DuringWait, sg)"
    | "signal_at w = None" and "wait w p = Inl KeyboardInterrupt"
    | sg where "signal_at w = Some (AfterWait, sg)" and "wait w p = Inl KeyboardInterrupt"
    | sg k where "signal_at w = Some (AfterWait, sg)" and "wait w p = Inr k"
    by auto
  then show ?thesis
  proof cases
    case 1
    then show ?thesis
      using main_waits [of w sg p] assms(1) by simp
  next
    case 2
    then show ?thesis
      using main_waits [of w SIGINT p] assms(1) by simp
  next
    case 3
    then show ?thesis
      using main_waits [of w sg p] assms(1) by simp
  next
    case 4
    then show ?thesis
      using main_waits [of w sg p] assms(1) by simp
  qed
qed

lemma clean_quiet:
  assumes "sys_stdout w = (\<lambda>_ _. None)" and "sys_stderr w = (\<lambda>_ _. None)"
    and "busy w = (\<lambda>_. False)"
  shows "clean_shutdown w"
  using assms
  by (simp add: clean_shutdown_def aborts_def stuck_def flush_fails_def)









subsection \<open>The exit status\<close>




subsection \<open>Signals\<close>

text \<open>
  Claim C2, as the script has it. Let \<^verbatim>\<open>SIGINT\<close> or \<^verbatim>\<open>SIGTERM\<close> arrive at any of the five
  points after the handlers are installed, the main thread getting there (with the child
  \<open>p\<close> spawned, unless the point is before the spawn). Then the main thread ends in
  \<^verbatim>\<open>sys.exit(0)\<close>, and after the signal it makes these calls and no other: none if
  \<^verbatim>\<open>proc\<close> is unset, which is so before the spawn and inside it; \<^verbatim>\<open>poll\<close> and then
  \<^verbatim>\<open>terminate\<close> on \<open>p\<close> if \<^verbatim>\<open>poll\<close> finds the child running; \<^verbatim>\<open>poll\<close> alone otherwise.
  So once \<^verbatim>\<open>proc\<close> is assigned \<^verbatim>\<open>terminate\<close> is called exactly when the child is
  running, nothing waits for the child afterwards, and since the world is arbitrary this
  holds whether or not \<^verbatim>\<open>terminate\<close> raises. The script ends with exit code 0 when the
  shutdown goes well, and it always does when the signal arrives before the threads are
  started.
\<close>

theorem signal_terminates_then_exits:
  assumes "signal_at w = Some (pt, sg)" and "reaches w pt p"
  shows "fst (main w init) = Inl (SystemExit 0) \<and>
         calls (run w) =
           calls_before w pt p @
           (if pt = BeforeSpawn \<or> pt = DuringSpawn then []
            else if poll w p = None then [Poll p, Terminate p]
            else [Poll p]) \<and>
         exit (run w) = finish w (snd (main w init)) (Code 0) \<and>
         (clean_shutdown w \<longrightarrow> exit (run w) = Code 0) \<and>
         (pt = BeforeSpawn \<or> pt = DuringSpawn \<or> pt = BeforeThreads \<longrightarrow> exit (run w) = Code 0)"
proof -
  have m: "fst (main w init) = Inl (SystemExit 0) \<and>
         actions (snd (main w init)) =
           calls_before w pt p @
           (if pt = BeforeSpawn \<or> pt = DuringSpawn then []
            else if poll w p = None then [Poll p, Terminate p]
            else [Poll p])"
  proof (cases pt)
    case BeforeSpawn
    with assms show ?thesis
      by (simp add: main_early_signal installed_def calls_before_def)
  next
    case DuringSpawn
    with assms show ?thesis
      by (simp add: reaches_def main_signal_during_spawn [of w sg p] installed_def log_def
          calls_before_def)
  next
    case BeforeThreads
    with assms show ?thesis
      by (simp add: reaches_def main_signal_before_threads [of w sg p] handler_calls_def)
  next
    case DuringWait
    with assms have "popen w (main_popen_args w) = Inr p"
      by (simp add: reaches_def)
    from main_interrupted [OF this] assms(1) DuringWait show ?thesis
      by (simp add: handler_calls_def)
  next
    case AfterWait
    with assms have "popen w (main_popen_args w) = Inr p" and "\<exists>k. wait w p = Inr k"
      by (simp_all add: reaches_def split: sum.splits)
    from main_interrupted [OF this(1)] this(2) assms(1) AfterWait show ?thesis
      by (simp add: handler_calls_def calls_before_def)
  qed
  then have e: "exit (run w) = finish w (snd (main w init)) (Code 0)"
    using exit_finish [of w 0] by simp
  have "exit (run w) = Code 0"
    if "pt = BeforeSpawn \<or> pt = DuringSpawn \<or> pt = BeforeThreads"
  proof -
    from that assms(1) have "\<forall>p. \<not> threads_run w p"
      by (auto simp add: threads_run_def)
    from clean_not_started [OF this] e show ?thesis
      by (simp add: finish_def)
  qed
  with m e show ?thesis
    by (simp add: run_fields finish_clean)
qed

theorem signal_terminates_then_exits_witness:
  "calls (run (calm\<lparr>signal_at := Some (DuringWait, SIGINT), terminate := \<lambda>_. Some OSError\<rparr>))
     = [Signal SIGINT, Signal SIGTERM, Popen (main_popen_args calm),
        Thread T_out True, Thread T_err True, Thread T_in True,
        Start T_out, Start T_err, Start T_in, Wait 7, Poll 7, Terminate 7] \<and>
   exit (run (calm\<lparr>signal_at := Some (DuringWait, SIGINT), terminate := \<lambda>_. Some OSError\<rparr>))
     = Code 0 \<and>
   calls (run (calm\<lparr>signal_at := Some (BeforeThreads, SIGTERM), poll := \<lambda>_. Some 0\<rparr>))
     = [Signal SIGINT, Signal SIGTERM, Popen (main_popen_args calm), Poll 7] \<and>
   exit (run (calm\<lparr>signal_at := Some (BeforeThreads, SIGTERM), poll := \<lambda>_. Some 0\<rparr>))
     = Code 0 \<and>
   calls (run (calm\<lparr>signal_at := Some (DuringSpawn, SIGTERM)\<rparr>))
     = [Signal SIGINT, Signal SIGTERM, Popen (main_popen_args calm)] \<and>
   exit (run (calm\<lparr>signal_at := Some (DuringSpawn, SIGTERM)\<rparr>)) = Code 0"
proof -
  let ?a = "calm\<lparr>signal_at := Some (DuringWait, SIGINT), terminate := \<lambda>_. Some OSError\<rparr>"
  let ?b = "calm\<lparr>signal_at := Some (BeforeThreads, SIGTERM), poll := \<lambda>_. Some 0\<rparr>"
  let ?c = "calm\<lparr>signal_at := Some (DuringSpawn, SIGTERM)\<rparr>"
  have s: "signal_at ?a = Some (DuringWait, SIGINT)" "signal_at ?b = Some (BeforeThreads, SIGTERM)"
    "signal_at ?c = Some (DuringSpawn, SIGTERM)"
    by simp_all
  have r: "reaches ?a DuringWait 7" "reaches ?b BeforeThreads 7" "reaches ?c DuringSpawn 7"
    by (simp_all add: reaches_def calm_def)
  have a: "main_popen_args ?a = main_popen_args calm" "main_popen_args ?b = main_popen_args calm"
    "main_popen_args ?c = main_popen_args calm"
    by (simp_all add: main_popen_args_def)
  have q: "poll ?a 7 = None" "poll ?b 7 = Some 0"
    by (simp_all add: calm_def)
  have c: "clean_shutdown ?a" "clean_shutdown ?b" "clean_shutdown ?c"
    by (rule clean_quiet; simp add: calm_def)+
  have "calls (run ?a) = calls_before ?a DuringWait 7 @ [Poll 7, Terminate 7]"
    and "exit (run ?a) = Code 0"
    using signal_terminates_then_exits [OF s(1) r(1)] q(1) c(1) by (simp_all add: finish_clean)
  moreover have "calls (run ?b) = calls_before ?b BeforeThreads 7 @ [Poll 7]"
    and "exit (run ?b) = Code 0"
    using signal_terminates_then_exits [OF s(2) r(2)] q(2) c(2) by (simp_all add: finish_clean)
  moreover have "calls (run ?c) = calls_before ?c DuringSpawn 7 @ []"
    and "exit (run ?c) = Code 0"
    using signal_terminates_then_exits [OF s(3) r(3)] c(3) by (simp_all add: finish_clean)
  ultimately show ?thesis
    by (simp add: calls_before_def a)
qed

text \<open>
  The claim's "if and only if the child is still running" fails for a signal handled
  inside line 23: the child 7 exists and is running, \<^verbatim>\<open>proc\<close> is still unset, and
  \<^verbatim>\<open>terminate\<close> is not called. Its "exits with status 0" fails for a signal that arrives
  during the wait with the output relay stopped inside a write: the shutdown aborts.
\<close>

theorem signal_terminates_then_exits_counterexample:
  "popen (calm\<lparr>signal_at := Some (DuringSpawn, SIGTERM)\<rparr>)
     (main_popen_args (calm\<lparr>signal_at := Some (DuringSpawn, SIGTERM)\<rparr>)) = Inr 7 \<and>
   poll (calm\<lparr>signal_at := Some (DuringSpawn, SIGTERM)\<rparr>) 7 = None \<and>
   Terminate 7 \<notin> set (calls (run (calm\<lparr>signal_at := Some (DuringSpawn, SIGTERM)\<rparr>))) \<and>
   exit (run (busy_exit\<lparr>signal_at := Some (DuringWait, SIGINT)\<rparr>)) = Aborted"
proof -
  let ?c = "calm\<lparr>signal_at := Some (DuringSpawn, SIGTERM)\<rparr>"
  let ?d = "busy_exit\<lparr>signal_at := Some (DuringWait, SIGINT)\<rparr>"
  have f: "popen ?c (main_popen_args ?c) = Inr 7" "poll ?c 7 = None"
    "signal_at ?c = Some (DuringSpawn, SIGTERM)"
    by (simp_all add: calm_def)
  from main_signal_during_spawn [OF f(3) f(1)]
  have c: "Terminate 7 \<notin> set (calls (run ?c))"
    by (simp add: run_fields log_def installed_def)
  have g: "popen ?d (main_popen_args ?d) = Inr 7"
    by (simp add: busy_exit_def calm_def)
  have t: "threads_run ?d 7"
    using g by (simp add: threads_run_def)
  have "main ?d init =
          (Inl (SystemExit 0),
           (waiting ?d 7)\<lparr>actions := calls_before ?d DuringWait 7 @ handler_calls ?d 7\<rparr>)"
    by (rule main_interrupted [OF g]) simp
  then have "exit (run ?d) = finish ?d (snd (main ?d init)) (Code (0 mod 256))"
    using exit_finish [of ?d 0] by simp
  moreover have "aborts ?d (snd (main ?d init))"
    by (simp add: aborts_started [OF t]) (simp add: busy_exit_def)
  ultimately have "exit (run ?d) = Aborted"
    by (simp add: finish_def)
  with f c show ?thesis
    by simp
qed

text \<open>
  Claim C9. With \<^verbatim>\<open>proc\<close> unset the handler changes nothing, so it calls neither
  \<^verbatim>\<open>poll\<close> nor \<^verbatim>\<open>terminate\<close>, and raises \<^verbatim>\<open>SystemExit(0)\<close>. A signal that arrives
  between line 21 and line 23 therefore ends the script with exit code 0 after the two
  \<^verbatim>\<open>signal.signal\<close> calls and nothing else: no process was spawned, none was signalled.
\<close>

theorem signal_before_spawn:
  "(proc s = None \<longrightarrow> handle_termination w s = (Inl (SystemExit 0), s)) \<and>
   (signal_at w = Some (BeforeSpawn, sg) \<longrightarrow>
      main w init =
        (Inl (SystemExit 0),
         \<lparr>proc = None, handlers = (\<lambda>_. Handle_termination),
          actions = [Signal SIGINT, Signal SIGTERM]\<rparr>) \<and>
      exit (run w) = Code 0 \<and>
      calls (run w) = [Signal SIGINT, Signal SIGTERM])"
proof (intro conjI impI)
  assume "proc s = None"
  then show "handle_termination w s = (Inl (SystemExit 0), s)"
    by (simp add: handle_termination_eq)
next
  assume a: "signal_at w = Some (BeforeSpawn, sg)"
  then have m: "main w init = (Inl (SystemExit 0), installed)"
    by (rule main_early_signal)
  then show "main w init =
        (Inl (SystemExit 0),
         \<lparr>proc = None, handlers = (\<lambda>_. Handle_termination),
          actions = [Signal SIGINT, Signal SIGTERM]\<rparr>)"
    by (simp add: installed_def)
  from m show "calls (run w) = [Signal SIGINT, Signal SIGTERM]"
    by (simp add: run_fields installed_def)
  from a have "\<forall>p. \<not> threads_run w p"
    by (simp add: threads_run_def)
  from exit_not_started [OF this] m show "exit (run w) = Code 0"
    by simp
qed

theorem signal_before_spawn_witness:
  "handle_termination calm init = (Inl (SystemExit 0), init) \<and>
   exit (run (calm\<lparr>signal_at := Some (BeforeSpawn, SIGTERM)\<rparr>)) = Code 0 \<and>
   calls (run (calm\<lparr>signal_at := Some (BeforeSpawn, SIGTERM)\<rparr>))
     = [Signal SIGINT, Signal SIGTERM]"
proof -
  have a: "signal_at (calm\<lparr>signal_at := Some (BeforeSpawn, SIGTERM)\<rparr>) = Some (BeforeSpawn, SIGTERM)"
    by simp
  have b: "proc init = None"
    by (simp add: init_def)
  show ?thesis
    using signal_before_spawn [of init calm]
      signal_before_spawn [of init "calm\<lparr>signal_at := Some (BeforeSpawn, SIGTERM)\<rparr>" SIGTERM]
      a b
    by blast
qed

subsection \<open>The spawn\<close>

text \<open>
  Claim C3. If \<^verbatim>\<open>Popen\<close> raises \<^verbatim>\<open>OSError\<close> (a missing or non-executable program),
  and no signal ended the script before line 23, then nothing catches the exception:
  the script ends with exit code 1, \<^verbatim>\<open>Popen\<close> was called once and is the last call made,
  no thread was created, and no relay forwarded anything.
\<close>

theorem spawn_failure_is_fatal:
  assumes "popen w (main_popen_args w) = Inl OSError"
    and "\<forall>sg. signal_at w \<noteq> Some (BeforeSpawn, sg)"
  shows "exit (run w) = Code 1 \<and> exit (run w) \<noteq> Code 0 \<and>
         calls (run w) = [Signal SIGINT, Signal SIGTERM, Popen (main_popen_args w)] \<and>
         bridge_stdout (run w) = [] \<and> bridge_stderr (run w) = [] \<and> child_stdin (run w) = []"
proof -
  have m: "main w init = (Inl OSError, log (Popen (main_popen_args w)) installed)"
    by (rule main_spawn_fails [OF assms(2) assms(1)])
  have n: "\<forall>p. \<not> threads_run w p"
    using assms(1) by (simp add: threads_run_def)
  have "exit (run w) = Code 1"
    using exit_not_started [OF n] m by simp
  moreover have "calls (run w) = [Signal SIGINT, Signal SIGTERM, Popen (main_popen_args w)]"
    using m by (simp add: run_fields log_def installed_def)
  ultimately show ?thesis
    using relays_not_started [OF n] by simp
qed

theorem spawn_failure_is_fatal_witness:
  "exit (run (calm\<lparr>popen := \<lambda>_. Inl OSError\<rparr>)) = Code 1 \<and>
   calls (run (calm\<lparr>popen := \<lambda>_. Inl OSError\<rparr>))
     = [Signal SIGINT, Signal SIGTERM, Popen (main_popen_args calm)] \<and>
   bridge_stdout (run (calm\<lparr>popen := \<lambda>_. Inl OSError\<rparr>)) = [] \<and>
   bridge_stderr (run (calm\<lparr>popen := \<lambda>_. Inl OSError\<rparr>)) = [] \<and>
   child_stdin (run (calm\<lparr>popen := \<lambda>_. Inl OSError\<rparr>)) = []"
proof -
  have a: "popen (calm\<lparr>popen := \<lambda>_. Inl OSError\<rparr>)
             (main_popen_args (calm\<lparr>popen := \<lambda>_. Inl OSError\<rparr>)) = Inl OSError"
    by simp
  have b: "\<forall>sg. signal_at (calm\<lparr>popen := \<lambda>_. Inl OSError\<rparr>) \<noteq> Some (BeforeSpawn, sg)"
    by (simp add: calm_def)
  have c: "main_popen_args (calm\<lparr>popen := \<lambda>_. Inl OSError\<rparr>) = main_popen_args calm"
    by (simp add: main_popen_args_def)
  show ?thesis
    using spawn_failure_is_fatal [OF a b] by (simp add: c)
qed

text \<open>
  Claim C7. The \<^verbatim>\<open>env\<close> argument of the spawn is the script's own environment: every
  \<^verbatim>\<open>Popen\<close> call a run makes has the arguments of line 23 to 32, whose \<^verbatim>\<open>env\<close> is
  \<^verbatim>\<open>os.environ\<close>, the same mapping with nothing added, removed or changed.
\<close>

theorem environment_passed_unmodified:
  "env (main_popen_args w) = os_environ w \<and>
   (\<forall>a. Popen a \<in> set (calls (run w)) \<longrightarrow> a = main_popen_args w \<and> env a = os_environ w)"
proof (intro conjI allI impI)
  show e: "env (main_popen_args w) = os_environ w"
    by (simp add: main_popen_args_def)
  fix a
  assume a: "Popen a \<in> set (calls (run w))"
  obtain pt p tl where c: "calls (run w) = calls_before w pt p @ tl"
    and tl: "tl = [] \<or> (pt \<noteq> BeforeSpawn \<and> tl = handler_calls w p)"
    using calls_run [of w] by blast
  from a c tl show "a = main_popen_args w"
    by (cases pt) (auto simp add: calls_before_def handler_calls_def split: if_splits)
  with e show "env a = os_environ w"
    by simp
qed

theorem environment_passed_unmodified_witness:
  "Popen (main_popen_args calm) \<in> set (calls (run calm)) \<and>
   env (main_popen_args calm) = [''PATH'' \<mapsto> ''C:/Windows'']"
proof -
  have "signal_at calm = None" and "popen calm (main_popen_args calm) = Inr 7"
    and "wait calm 7 = Inr 3"
    by (simp_all add: calm_def)
  then have "main calm init = (Inl (SystemExit 3), waiting calm 7)"
    by (rule main_returns)
  then have "calls (run calm) = calls_before calm DuringWait 7"
    by (simp add: run_def waiting_def)
  then have "Popen (main_popen_args calm) \<in> set (calls (run calm))"
    by (simp add: calls_before_def)
  moreover from this have "env (main_popen_args calm) = os_environ calm"
    using environment_passed_unmodified [of calm] by blast
  moreover have "os_environ calm = [''PATH'' \<mapsto> ''C:/Windows'']"
    by (simp add: calm_def)
  ultimately show ?thesis
    by simp
qed

subsection \<open>One child\<close>

text \<open>
  Claim C8, as the script has it. A run calls \<^verbatim>\<open>Popen\<close> at most once, and exactly once
  unless a signal ends it before line 23. Every \<^verbatim>\<open>poll\<close>, \<^verbatim>\<open>terminate\<close> and \<^verbatim>\<open>wait\<close> of
  the run acts on the process that call returned, and \<^verbatim>\<open>proc\<close>, if set when the run
  ends, holds that process. No statement that runs after the assignment of line 23
  (signal delivery, thread creation and start, the wait, the handler) changes \<^verbatim>\<open>proc\<close>.
  The relays either forward nothing or read and write the streams of that same process.
\<close>

theorem at_most_one_child:
  "length (filter is_Popen (calls (run w))) \<le> 1 \<and>
   ((length (filter is_Popen (calls (run w))) = 1)
      = (\<forall>sg. signal_at w \<noteq> Some (BeforeSpawn, sg))) \<and>
   (\<forall>a q. a \<in> set (calls (run w)) \<and> handle_of a = Some q
      \<longrightarrow> popen w (main_popen_args w) = Inr q) \<and>
   (\<forall>q. proc (snd (main w init)) = Some q \<longrightarrow> popen w (main_popen_args w) = Inr q) \<and>
   proc (snd (deliver w pt s)) = proc s \<and>
   proc (snd (threading_Thread t d s)) = proc s \<and>
   proc (snd (thread_start t s)) = proc s \<and>
   proc (snd (wait_and_exit w s)) = proc s \<and>
   proc (snd (handle_termination w s)) = proc s \<and>
   ((bridge_stdout (run w) = [] \<and> bridge_stderr (run w) = [] \<and> child_stdin (run w) = []) \<or>
    (\<exists>p. popen w (main_popen_args w) = Inr p \<and>
       bridge_stdout (run w) =
         cut_off (cut_out w) (snd (read_stdout_loop (proc_stdout w p) (sys_stdout w) [])) \<and>
       bridge_stderr (run w) =
         cut_off (cut_err w) (snd (read_stderr_loop (proc_stderr w p) (sys_stderr w) [])) \<and>
       child_stdin (run w) =
         cut_off (cut_in w) (snd (forward_stdin_loop (sys_stdin w) (proc_stdin w p) []))))"
proof -
  have "proc (snd (threading_Thread t d s)) = proc s"
    and "proc (snd (thread_start t s)) = proc s"
    by (simp_all add: threading_Thread_def thread_start_def proc_log)
  then show ?thesis
    using one_spawn [of w] relays_same_child [of w] proc_deliver [of w pt s]
      proc_wait_and_exit [of w s] proc_handle_termination [of w s]
    by blast
qed

theorem at_most_one_child_witness:
  "length (filter is_Popen (calls (run calm))) = 1 \<and>
   Wait 7 \<in> set (calls (run calm)) \<and> popen calm (main_popen_args calm) = Inr 7 \<and>
   proc (snd (main calm init)) = Some 7"
proof -
  have q: "signal_at calm = None" and p: "popen calm (main_popen_args calm) = Inr 7"
    and "wait calm 7 = Inr 3"
    by (simp_all add: calm_def)
  then have m: "main calm init = (Inl (SystemExit 3), waiting calm 7)"
    by (rule main_returns)
  then have w: "Wait 7 \<in> set (calls (run calm))" and h: "handle_of (Wait 7) = Some 7"
    and s: "proc (snd (main calm init)) = Some 7"
    by (simp_all add: run_fields waiting_def calls_before_def)
  have "\<forall>sg. signal_at calm \<noteq> Some (BeforeSpawn, sg)"
    using q by simp
  then have "length (filter is_Popen (calls (run calm))) = 1"
    using at_most_one_child [of calm] by blast
  moreover have "popen calm (main_popen_args calm) = Inr 7"
    using at_most_one_child [of calm] w h by blast
  ultimately show ?thesis
    using w s by simp
qed

text \<open>
  The claim's "the spawn operation runs exactly once" fails when \<^verbatim>\<open>SIGINT\<close> arrives
  between line 21 and line 23: the handler exits and \<^verbatim>\<open>Popen\<close> is never called.
\<close>

theorem spawn_exactly_once_counterexample:
  "length (filter is_Popen (calls (run (calm\<lparr>signal_at := Some (BeforeSpawn, SIGINT)\<rparr>)))) \<noteq> 1"
proof -
  have "signal_at (calm\<lparr>signal_at := Some (BeforeSpawn, SIGINT)\<rparr>) = Some (BeforeSpawn, SIGINT)"
    by simp
  then have "main (calm\<lparr>signal_at := Some (BeforeSpawn, SIGINT)\<rparr>) init
               = (Inl (SystemExit 0), installed)"
    by (rule main_early_signal)
  then show ?thesis
    by (simp add: run_fields installed_def)
qed

subsection \<open>The relays and the main thread\<close>







subsection \<open>What the relays forward\<close>







end
